theory Spec2Isabelle
  imports Main "HOL-Library.Word"
begin

unbundle bit_operations_syntax

section \<open>Bytes, 64-bit words and the host byte order\<close>

text \<open>
  \<^verbatim>\<open>signature.c\<close> handles three kinds of data: byte arrays (\<^verbatim>\<open>u8 r[32]\<close>,
  \<^verbatim>\<open>u8 s[32]\<close>), the \<^verbatim>\<open>uint64_t\<close> fields of the protobuf message and OpenSSL
  big numbers. A byte array is a list of 8-bit words, a \<^verbatim>\<open>uint64_t\<close> is a 64-bit
  word, a \<^verbatim>\<open>BIGNUM\<close> is an integer (sign and magnitude).
\<close>

type_synonym u8 = "8 word"
type_synonym u64 = "64 word"

text \<open>
  The codec moves bytes in and out of \<^verbatim>\<open>uint64_t\<close> objects with \<^verbatim>\<open>memcpy\<close>, so the
  number a field holds is the one whose object representation is the eight bytes
  copied. C leaves the byte order of that representation to the platform; the model
  takes it as a parameter.
\<close>

datatype endian = LittleEndian | BigEndian

definition shift_in :: "u64 \<Rightarrow> u8 \<Rightarrow> u64" where
  "shift_in acc b = push_bit 8 acc OR ucast b"

definition byte_at :: "u64 \<Rightarrow> nat \<Rightarrow> u8" where
  "byte_at w i = ucast (drop_bit (8 * i) w)"

text \<open>The big-endian value of a byte string, and the eight bytes of a word, most
  significant first.\<close>

definition u64_of_be_bytes :: "u8 list \<Rightarrow> u64" where
  "u64_of_be_bytes bs = foldl shift_in 0 bs"

definition be_bytes_of_u64 :: "u64 \<Rightarrow> u8 list" where
  "be_bytes_of_u64 w = map (byte_at w) [7, 6, 5, 4, 3, 2, 1, 0]"

text \<open>\<^verbatim>\<open>memcpy(&word, bytes, 8)\<close> and \<^verbatim>\<open>memcpy(bytes, &word, 8)\<close> on a host of byte
  order \<open>e\<close>.\<close>

definition u64_of_bytes :: "endian \<Rightarrow> u8 list \<Rightarrow> u64" where
  "u64_of_bytes e bs =
     (case e of BigEndian \<Rightarrow> u64_of_be_bytes bs | LittleEndian \<Rightarrow> u64_of_be_bytes (rev bs))"

definition bytes_of_u64 :: "endian \<Rightarrow> u64 \<Rightarrow> u8 list" where
  "bytes_of_u64 e w =
     (case e of BigEndian \<Rightarrow> be_bytes_of_u64 w | LittleEndian \<Rightarrow> rev (be_bytes_of_u64 w))"

text \<open>
  \<^verbatim>\<open>memcpy(dst + off, src, n)\<close> on a byte array, and the \<open>n\<close> bytes at
  \<^verbatim>\<open>src + off\<close>. Both stay inside the array in every call of this file (offsets 0, 8,
  16, 24 of a 32-byte array, eight bytes each); outside it C gives no meaning to them.
\<close>

definition memcpy :: "u8 list \<Rightarrow> nat \<Rightarrow> u8 list \<Rightarrow> u8 list" where
  "memcpy dst off src = take off dst @ src @ drop (off + length src) dst"

definition bytes_at :: "u8 list \<Rightarrow> nat \<Rightarrow> nat \<Rightarrow> u8 list" where
  "bytes_at src off n = take n (drop off src)"

section \<open>Signatures and their wire record\<close>

text \<open>\<^verbatim>\<open>struct signature { u8 r[32]; u8 s[32]; }\<close>\<close>

record signature =
  r :: "u8 list"
  s :: "u8 list"

definition wf_signature :: "signature \<Rightarrow> bool" where
  "wf_signature sg = (length (r sg) = 32 \<and> length (s sg) = 32)"

text \<open>The protobuf message \<^verbatim>\<open>Signature\<close>: eight \<^verbatim>\<open>uint64_t\<close> fields.\<close>

record Signature =
  r1 :: u64
  r2 :: u64
  r3 :: u64
  r4 :: u64
  s1 :: u64
  s2 :: u64
  s3 :: u64
  s4 :: u64

text \<open>A failed \<^verbatim>\<open>assert\<close> aborts the process: the only error of this file.\<close>

datatype error = AssertionFailed

text \<open>The test \<^verbatim>\<open>(sig->s[31] & 1) == 0\<close>, written three times in the source.\<close>

definition s_even :: "signature \<Rightarrow> bool" where
  "s_even sg = ((s sg ! 31) AND 1 = 0)"

definition signature_to_proto :: "endian \<Rightarrow> signature \<Rightarrow> error + Signature" where
  "signature_to_proto e sg =
     (if \<not> s_even sg then Inl AssertionFailed
      else Inr \<lparr>
        r1 = u64_of_bytes e (bytes_at (r sg) 0 8),
        r2 = u64_of_bytes e (bytes_at (r sg) 8 8),
        r3 = u64_of_bytes e (bytes_at (r sg) 16 8),
        r4 = u64_of_bytes e (bytes_at (r sg) 24 8),
        s1 = u64_of_bytes e (bytes_at (s sg) 0 8),
        s2 = u64_of_bytes e (bytes_at (s sg) 8 8),
        s3 = u64_of_bytes e (bytes_at (s sg) 16 8),
        s4 = u64_of_bytes e (bytes_at (s sg) 24 8) \<rparr>)"

text \<open>
  \<^verbatim>\<open>proto_to_signature\<close> writes through the caller's pointer and returns a flag: the
  model returns the caller's structure as the function leaves it, and the flag.
\<close>

definition proto_to_signature :: "endian \<Rightarrow> Signature \<Rightarrow> signature \<Rightarrow> signature \<times> bool" where
  "proto_to_signature e pb sg0 =
     (let sg1 = sg0\<lparr>r := memcpy (r sg0) 0 (bytes_of_u64 e (r1 pb))\<rparr>;
          sg2 = sg1\<lparr>r := memcpy (r sg1) 8 (bytes_of_u64 e (r2 pb))\<rparr>;
          sg3 = sg2\<lparr>r := memcpy (r sg2) 16 (bytes_of_u64 e (r3 pb))\<rparr>;
          sg4 = sg3\<lparr>r := memcpy (r sg3) 24 (bytes_of_u64 e (r4 pb))\<rparr>;
          sg5 = sg4\<lparr>s := memcpy (s sg4) 0 (bytes_of_u64 e (s1 pb))\<rparr>;
          sg6 = sg5\<lparr>s := memcpy (s sg5) 8 (bytes_of_u64 e (s2 pb))\<rparr>;
          sg7 = sg6\<lparr>s := memcpy (s sg6) 16 (bytes_of_u64 e (s3 pb))\<rparr>;
          sg8 = sg7\<lparr>s := memcpy (s sg7) 24 (bytes_of_u64 e (s4 pb))\<rparr>
      in (sg8, s_even sg8))"

section \<open>OpenSSL big numbers\<close>

text \<open>
  A \<^verbatim>\<open>BIGNUM\<close> is a sign and a magnitude: an integer. \<^verbatim>\<open>BN_is_odd\<close> tests the low
  bit of the magnitude, \<^verbatim>\<open>BN_sub\<close> is signed subtraction, \<^verbatim>\<open>BN_bn2bin\<close> writes the
  magnitude big-endian on \<^verbatim>\<open>BN_num_bytes\<close> bytes (none for zero), and \<^verbatim>\<open>BN_bin2bn\<close>
  reads a big-endian magnitude. The allocation failures of OpenSSL are not modelled:
  \<^verbatim>\<open>BN_bin2bn\<close> always returns a number.
\<close>

definition BN_is_odd :: "int \<Rightarrow> bool" where
  "BN_is_odd a = odd \<bar>a\<bar>"

definition BN_sub :: "int \<Rightarrow> int \<Rightarrow> int" where
  "BN_sub a b = a - b"

function be_bytes_of_nat :: "nat \<Rightarrow> u8 list" where
  "be_bytes_of_nat n = (if n = 0 then [] else be_bytes_of_nat (n div 256) @ [word_of_nat (n mod 256)])"
  by pat_completeness auto
termination
  by (relation "measure (\<lambda>n. n)") auto

declare be_bytes_of_nat.simps [simp del]

definition BN_bn2bin :: "int \<Rightarrow> u8 list" where
  "BN_bn2bin a = be_bytes_of_nat (nat \<bar>a\<bar>)"

definition BN_num_bytes :: "int \<Rightarrow> nat" where
  "BN_num_bytes a = length (BN_bn2bin a)"

definition int_of_be_bytes :: "u8 list \<Rightarrow> int" where
  "int_of_be_bytes bs = foldl (\<lambda>acc b. acc * 256 + uint b) 0 bs"

definition BN_bin2bn :: "u8 list \<Rightarrow> nat \<Rightarrow> int option" where
  "BN_bin2bn bs len = Some (int_of_be_bytes (take len bs))"

text \<open>\<^verbatim>\<open>ECDSA_SIG\<close>: the pair of big numbers \<open>(r, s)\<close>.\<close>

type_synonym ECDSA_SIG = "int \<times> int"

text \<open>\<^verbatim>\<open>struct sha256_double\<close>: the bytes of a digest.\<close>

type_synonym sha256_double = "u8 list"

text \<open>The order of the group of secp256k1, the curve \<^verbatim>\<open>check_signed_hash\<close> names
  (\<^verbatim>\<open>NID_secp256k1\<close>).\<close>

definition secp256k1_order :: int where
  "secp256k1_order = 0xFFFFFFFFFFFFFFFFFFFFFFFFFFFFFFFEBAAEDCE6AF48A03BBFD25E8CD0364141"

section \<open>Signing\<close>

text \<open>
  \<^verbatim>\<open>sign_hash\<close> calls OpenSSL's \<^verbatim>\<open>ECDSA_do_sign\<close> and reads the order of the key's
  group (\<^verbatim>\<open>EC_GROUP_get_order\<close> of \<^verbatim>\<open>EC_KEY_get0_group\<close>); both are parameters of the
  model. \<^verbatim>\<open>ECDSA_do_sign\<close> draws a nonce: the parameter is the primitive with the
  nonce of one call, and nothing below compares two calls of it. The result is an
  aborted process (\<open>Inl\<close>), the null pointer (\<open>Inr None\<close>) or a signature. \<^verbatim>\<open>talz\<close>
  gives the zeroed structure the numbers are packed into.
\<close>

definition sign_hash ::
  "(sha256_double \<Rightarrow> 'key \<Rightarrow> ECDSA_SIG option) \<Rightarrow> ('key \<Rightarrow> int) \<Rightarrow>
   'key \<Rightarrow> sha256_double \<Rightarrow> error + signature option" where
  "sign_hash ECDSA_do_sign group_order private_key h =
     (case ECDSA_do_sign h private_key of
        None \<Rightarrow> Inr None
      | Some (sig_r, sig_s0) \<Rightarrow>
          (let sig_s = (if BN_is_odd sig_s0 then BN_sub (group_order private_key) sig_s0
                        else sig_s0)
           in if BN_is_odd sig_s0 \<and> BN_is_odd sig_s then Inl AssertionFailed
              else
                let s0 = \<lparr>r = replicate 32 0, s = replicate 32 0\<rparr>;
                    len_r = BN_num_bytes sig_r
                in if \<not> len_r \<le> 32 then Inl AssertionFailed
                   else
                     let s1 = s0\<lparr>r := memcpy (r s0) (32 - len_r) (BN_bn2bin sig_r)\<rparr>;
                         len_s = BN_num_bytes sig_s
                     in if \<not> len_s \<le> 32 then Inl AssertionFailed
                        else Inr (Some (s1\<lparr>s := memcpy (s s1) (32 - len_s) (BN_bn2bin sig_s)\<rparr>))))"

section \<open>Transactions and the digest of one input\<close>

text \<open>
  \<^verbatim>\<open>bitcoin_tx.h\<close> is not part of the sources. The model keeps the fields
  \<^verbatim>\<open>signature.c\<close> reads and writes: the script pointer and the script length of an
  output and of an input, and the array of inputs of a transaction (\<^verbatim>\<open>input_count\<close>
  is its length). The other fields are the extension part of each record. A
  \<^verbatim>\<open>u8 *\<close> is \<open>None\<close> for \<^verbatim>\<open>NULL\<close>, or the bytes it points to.
\<close>

record bitcoin_tx_output =
  script_length :: nat
  script :: "u8 list option"

record bitcoin_tx_input =
  script_length :: nat
  script :: "u8 list option"

record 'i bitcoin_tx =
  input :: "'i bitcoin_tx_input_scheme list"

text \<open>
  The hash functions of \<^verbatim>\<open>shadouble.h\<close> and \<^verbatim>\<open>bitcoin_tx.h\<close>, and the constant
  \<^verbatim>\<open>SIGHASH_ALL\<close> of \<^verbatim>\<open>signature.h\<close>, are parameters too.
\<close>

record ('ctx, 'tx) hash_module =
  SHA256_INIT :: 'ctx
  sha256_init :: "'ctx \<Rightarrow> 'ctx"
  sha256_tx :: "'ctx \<Rightarrow> 'tx \<Rightarrow> 'ctx"
  sha256_le32 :: "'ctx \<Rightarrow> 32 word \<Rightarrow> 'ctx"
  sha256_double_done :: "'ctx \<Rightarrow> sha256_double"
  SIGHASH_ALL :: "32 word"

text \<open>The loop of assertions \<^verbatim>\<open>tx->input[i].script_length == 0\<close>.\<close>

fun inputs_zeroed :: "'i bitcoin_tx_input_scheme list \<Rightarrow> bool" where
  "inputs_zeroed [] = True"
| "inputs_zeroed (inp # inps) = (script_length inp = 0 \<and> inputs_zeroed inps)"

text \<open>
  \<^verbatim>\<open>sha256_tx_one_input\<close> changes the transaction in place and writes the digest
  through a pointer. The model returns the transaction as the function leaves it (at
  the failed assertion, when one fails) and the digest.
\<close>

definition sha256_tx_one_input ::
  "('ctx, ('i, 'a) bitcoin_tx_scheme) hash_module \<Rightarrow> ('i, 'a) bitcoin_tx_scheme \<Rightarrow> nat \<Rightarrow>
   u8 list option \<Rightarrow> nat \<Rightarrow> ('i, 'a) bitcoin_tx_scheme \<times> (error + sha256_double)" where
  "sha256_tx_one_input H tx input_num scr script_len =
     (if \<not> input_num < length (input tx) then (tx, Inl AssertionFailed)
      else if \<not> inputs_zeroed (input tx) then (tx, Inl AssertionFailed)
      else
        let tx1 = tx\<lparr>input := (input tx)
                     [input_num := (input tx ! input_num)\<lparr>script_length := script_len\<rparr>]\<rparr>;
            tx2 = tx1\<lparr>input := (input tx1)
                     [input_num := (input tx1 ! input_num)\<lparr>script := scr\<rparr>]\<rparr>;
            ctx0 = sha256_init H (SHA256_INIT H);
            ctx1 = sha256_tx H ctx0 tx2;
            ctx2 = sha256_le32 H ctx1 (SIGHASH_ALL H);
            hash = sha256_double_done H ctx2;
            tx3 = tx2\<lparr>input := (input tx2)
                     [input_num := (input tx2 ! input_num)\<lparr>script_length := 0\<rparr>]\<rparr>;
            tx4 = tx3\<lparr>input := (input tx3)
                     [input_num := (input tx3 ! input_num)\<lparr>script := None\<rparr>]\<rparr>
        in (tx4, Inr hash))"

definition sign_tx_input ::
  "('ctx, ('i, 'a) bitcoin_tx_scheme) hash_module \<Rightarrow>
   (sha256_double \<Rightarrow> 'key \<Rightarrow> ECDSA_SIG option) \<Rightarrow> ('key \<Rightarrow> int) \<Rightarrow>
   ('i, 'a) bitcoin_tx_scheme \<Rightarrow> nat \<Rightarrow> u8 list option \<Rightarrow> nat \<Rightarrow> 'key \<Rightarrow>
   ('i, 'a) bitcoin_tx_scheme \<times> (error + signature option)" where
  "sign_tx_input H ECDSA_do_sign group_order tx n subscript subscript_len privkey =
     (case sha256_tx_one_input H tx n subscript subscript_len of
        (tx', Inl err) \<Rightarrow> (tx', Inl err)
      | (tx', Inr hash) \<Rightarrow> (tx', sign_hash ECDSA_do_sign group_order privkey hash))"

section \<open>Verification\<close>

text \<open>
  \<^verbatim>\<open>check_signed_hash\<close> decodes the public key on secp256k1 (\<^verbatim>\<open>o2i_ECPublicKey\<close> on
  the key's bytes and \<^verbatim>\<open>pubkey_len\<close>, of \<^verbatim>\<open>pubkey.h\<close>) and calls \<^verbatim>\<open>ECDSA_do_verify\<close>,
  which returns 1, 0 or -1: two more parameters.
\<close>

record ('pubkey, 'eckey) ecdsa =
  o2i_ECPublicKey :: "'pubkey \<Rightarrow> 'eckey option"
  ECDSA_do_verify :: "sha256_double \<Rightarrow> ECDSA_SIG \<Rightarrow> 'eckey \<Rightarrow> int"

definition check_signed_hash ::
  "('pubkey, 'eckey) ecdsa \<Rightarrow> sha256_double \<Rightarrow> signature \<Rightarrow> 'pubkey \<Rightarrow> error + bool" where
  "check_signed_hash E hash signature pk =
     (if \<not> s_even signature then Inl AssertionFailed
      else
        case o2i_ECPublicKey E pk of
          None \<Rightarrow> Inr False
        | Some eckey \<Rightarrow>
            (case BN_bin2bn (r signature) 32 of
               None \<Rightarrow> Inr False
             | Some bn_r \<Rightarrow>
                 (case BN_bin2bn (s signature) 32 of
                    None \<Rightarrow> Inr False
                  | Some bn_s \<Rightarrow>
                      (let v = ECDSA_do_verify E hash (bn_r, bn_s) eckey
                       in if v = 0 then Inr False
                          else if v = - 1 then Inr False
                          else Inr True))))"

text \<open>
  \<^verbatim>\<open>check_2of2_sig\<close>; \<^verbatim>\<open>is_p2sh\<close> of \<^verbatim>\<open>bitcoin_script.h\<close> is a parameter. The second
  operand of \<^verbatim>\<open>&&\<close> is evaluated only when the first is true.
\<close>

definition check_2of2_sig ::
  "('ctx, ('i, 'a) bitcoin_tx_scheme) hash_module \<Rightarrow> (u8 list option \<Rightarrow> nat \<Rightarrow> bool) \<Rightarrow>
   ('pubkey, 'eckey) ecdsa \<Rightarrow> ('i, 'a) bitcoin_tx_scheme \<Rightarrow> nat \<Rightarrow> bitcoin_tx_output \<Rightarrow>
   'pubkey \<Rightarrow> 'pubkey \<Rightarrow> signature \<Rightarrow> signature \<Rightarrow>
   ('i, 'a) bitcoin_tx_scheme \<times> (error + bool)" where
  "check_2of2_sig H is_p2sh E tx input_num output key1 key2 sig1 sig2 =
     (if \<not> input_num < length (input tx) then (tx, Inl AssertionFailed)
      else if \<not> is_p2sh (bitcoin_tx_output.script output) (bitcoin_tx_output.script_length output)
        then (tx, Inl AssertionFailed)
      else
        case sha256_tx_one_input H tx input_num (bitcoin_tx_output.script output)
               (bitcoin_tx_output.script_length output) of
          (tx', Inl err) \<Rightarrow> (tx', Inl err)
        | (tx', Inr hash) \<Rightarrow>
            (tx',
             case check_signed_hash E hash sig1 key1 of
               Inl err \<Rightarrow> Inl err
             | Inr False \<Rightarrow> Inr False
             | Inr True \<Rightarrow> check_signed_hash E hash sig2 key2))"

section \<open>Vocabulary of the specification\<close>

text \<open>The eight words of a wire record in their order, and the eight 8-byte chunks of a
  signature in theirs.\<close>

definition wire_words :: "Signature \<Rightarrow> u64 list" where
  "wire_words pb = [r1 pb, r2 pb, r3 pb, r4 pb, s1 pb, s2 pb, s3 pb, s4 pb]"

definition chunks :: "signature \<Rightarrow> u8 list list" where
  "chunks sg =
     [bytes_at (r sg) 0 8, bytes_at (r sg) 8 8, bytes_at (r sg) 16 8, bytes_at (r sg) 24 8,
      bytes_at (s sg) 0 8, bytes_at (s sg) 8 8, bytes_at (s sg) 16 8, bytes_at (s sg) 24 8]"

section \<open>Example values\<close>

text \<open>A canonical signature and its wire record on a little-endian host.\<close>

definition sig_example :: signature where
  "sig_example =
     \<lparr>r = [11, 48, 85, 122, 159, 196, 233, 14, 51, 88, 125, 162, 199, 236, 17, 54,
           91, 128, 165, 202, 239, 20, 57, 94, 131, 168, 205, 242, 23, 60, 97, 134],
      s = [6, 59, 112, 165, 218, 15, 68, 121, 174, 227, 24, 77, 130, 183, 236, 33,
           86, 139, 192, 245, 42, 95, 148, 201, 254, 51, 104, 157, 210, 7, 60, 112]\<rparr>"

definition pb_example_le :: Signature where
  "pb_example_le =
     \<lparr>r1 = 0x0EE9C49F7A55300B, r2 = 0x3611ECC7A27D5833,
      r3 = 0x5E3914EFCAA5805B, r4 = 0x86613C17F2CDA883,
      s1 = 0x79440FDAA5703B06, s2 = 0x21ECB7824D18E3AE,
      s3 = 0xC9945F2AF5C08B56, s4 = 0x703C07D29D6833FE\<rparr>"

definition pb_example_be :: Signature where
  "pb_example_be =
     \<lparr>r1 = 0x0B30557A9FC4E90E, r2 = 0x33587DA2C7EC1136,
      r3 = 0x5B80A5CAEF14395E, r4 = 0x83A8CDF2173C6186,
      s1 = 0x063B70A5DA0F4479, s2 = 0xAEE3184D82B7EC21,
      s3 = 0x568BC0F52A5F94C9, s4 = 0xFE33689DD2073C70\<rparr>"

text \<open>The zeroed structure, as \<^verbatim>\<open>talz\<close> gives it.\<close>

definition sig_zero :: signature where
  "sig_zero =
     \<lparr>r = [0, 0, 0, 0, 0, 0, 0, 0, 0, 0, 0, 0, 0, 0, 0, 0,
           0, 0, 0, 0, 0, 0, 0, 0, 0, 0, 0, 0, 0, 0, 0, 0],
      s = [0, 0, 0, 0, 0, 0, 0, 0, 0, 0, 0, 0, 0, 0, 0, 0,
           0, 0, 0, 0, 0, 0, 0, 0, 0, 0, 0, 0, 0, 0, 0, 0]\<rparr>"

text \<open>A signature whose \<open>s\<close> is odd, and a wire record that carries it on a big-endian
  host.\<close>

definition sig_odd :: signature where
  "sig_odd =
     \<lparr>r = [0, 0, 0, 0, 0, 0, 0, 1, 0, 0, 0, 0, 0, 0, 0, 2,
           0, 0, 0, 0, 0, 0, 0, 3, 0, 0, 0, 0, 0, 0, 0, 4],
      s = [0, 0, 0, 0, 0, 0, 0, 5, 0, 0, 0, 0, 0, 0, 0, 6,
           0, 0, 0, 0, 0, 0, 0, 7, 0, 0, 0, 0, 0, 0, 0, 9]\<rparr>"

definition pb_odd :: Signature where
  "pb_odd = \<lparr>r1 = 1, r2 = 2, r3 = 3, r4 = 4, s1 = 5, s2 = 6, s3 = 7, s4 = 9\<rparr>"

text \<open>A record of eight-byte words whose \<open>s\<close> is odd on a big-endian host, and the
  signature it carries there.\<close>

definition pb_noncanonical :: Signature where
  "pb_noncanonical =
     \<lparr>r1 = 0x0B30557A9FC4E90E, r2 = 0x33587DA2C7EC1136,
      r3 = 0x5B80A5CAEF14395E, r4 = 0x83A8CDF2173C6186,
      s1 = 0x063B70A5DA0F4479, s2 = 0xAEE3184D82B7EC21,
      s3 = 0x568BC0F52A5F94C9, s4 = 0xFE33689DD2073C71\<rparr>"

definition sig_noncanonical :: signature where
  "sig_noncanonical =
     \<lparr>r = [11, 48, 85, 122, 159, 196, 233, 14, 51, 88, 125, 162, 199, 236, 17, 54,
           91, 128, 165, 202, 239, 20, 57, 94, 131, 168, 205, 242, 23, 60, 97, 134],
      s = [6, 59, 112, 165, 218, 15, 68, 121, 174, 227, 24, 77, 130, 183, 236, 33,
           86, 139, 192, 245, 42, 95, 148, 201, 254, 51, 104, 157, 210, 7, 60, 113]\<rparr>"

text \<open>The largest \<open>r\<close> and the largest even \<open>s\<close> on 32 bytes: both above the order of
  the group.\<close>

definition sig_max :: signature where
  "sig_max =
     \<lparr>r = [255, 255, 255, 255, 255, 255, 255, 255, 255, 255, 255, 255, 255, 255, 255, 255,
           255, 255, 255, 255, 255, 255, 255, 255, 255, 255, 255, 255, 255, 255, 255, 255],
      s = [255, 255, 255, 255, 255, 255, 255, 255, 255, 255, 255, 255, 255, 255, 255, 255,
           255, 255, 255, 255, 255, 255, 255, 255, 255, 255, 255, 255, 255, 255, 255, 254]\<rparr>"

definition pb_max_le :: Signature where
  "pb_max_le =
     \<lparr>r1 = 0xFFFFFFFFFFFFFFFF, r2 = 0xFFFFFFFFFFFFFFFF,
      r3 = 0xFFFFFFFFFFFFFFFF, r4 = 0xFFFFFFFFFFFFFFFF,
      s1 = 0xFFFFFFFFFFFFFFFF, s2 = 0xFFFFFFFFFFFFFFFF,
      s3 = 0xFFFFFFFFFFFFFFFF, s4 = 0xFEFFFFFFFFFFFFFF\<rparr>"

text \<open>
  Stand-ins for the collaborators, for the examples only. The signer returns numbers
  read off its arguments. The hash module returns, as the digest, the bytes it was fed:
  the script length and the script of every input, then the four bytes of the tag. The
  verifier makes the range check of ECDSA (\<open>0 < r, s < n\<close>) and then accepts when
  \<open>r\<close> is the number the key decodes to.
\<close>

definition example_sign :: "sha256_double \<Rightarrow> int \<Rightarrow> ECDSA_SIG option" where
  "example_sign h k = (if k = 0 then None else Some (k, int_of_be_bytes h + k))"

definition sig_signed_example :: signature where
  "sig_signed_example =
     \<lparr>r = [0, 0, 0, 0, 0, 0, 0, 0, 0, 0, 0, 0, 0, 0, 0, 0,
           0, 0, 0, 0, 0, 0, 0, 0, 0, 0, 0, 0, 0, 0, 0, 8],
      s = [255, 255, 255, 255, 255, 255, 255, 255, 255, 255, 255, 255, 255, 255, 255, 254,
           186, 174, 220, 230, 175, 72, 160, 59, 191, 210, 94, 140, 208, 53, 63, 54]\<rparr>"

text \<open>The order of the group of secp384r1, and a signer on it whose \<open>r\<close> needs 33
  bytes.\<close>

definition secp384r1_order :: int where
  "secp384r1_order =
     0xFFFFFFFFFFFFFFFFFFFFFFFFFFFFFFFFFFFFFFFFFFFFFFFFC7634D81F4372DDF581A0DB248B0A77AECEC196ACCC52973"

definition example_sign_384 :: "sha256_double \<Rightarrow> int \<Rightarrow> ECDSA_SIG option" where
  "example_sign_384 h k =
     (if k = 0 then None
      else Some (0x10000000000000000000000000000000000000000000000000000000000000000 + k,
                 int_of_be_bytes h + k + 1))"

definition transparent_hash :: "(u8 list, ('i, 'a) bitcoin_tx_scheme) hash_module" where
  "transparent_hash =
     \<lparr>SHA256_INIT = [],
      sha256_init = (\<lambda>ctx. []),
      sha256_tx = (\<lambda>ctx tx. ctx @ concat (map (\<lambda>inp. word_of_nat (script_length inp) #
          (case script inp of None \<Rightarrow> [] | Some bs \<Rightarrow> take (script_length inp) bs)) (input tx))),
      sha256_le32 = (\<lambda>ctx w. ctx @ [ucast w, ucast (drop_bit 8 w), ucast (drop_bit 16 w),
          ucast (drop_bit 24 w)]),
      sha256_double_done = (\<lambda>ctx. ctx),
      SIGHASH_ALL = 1\<rparr>"

definition example_ecdsa :: "(u8 list, int) ecdsa" where
  "example_ecdsa =
     \<lparr>o2i_ECPublicKey = (\<lambda>pk. if pk = [] then None else Some (int_of_be_bytes pk)),
      ECDSA_do_verify = (\<lambda>h sg q.
         if 0 < fst sg \<and> fst sg < secp256k1_order \<and> 0 < snd sg \<and> snd sg < secp256k1_order
         then (if fst sg = q then 1 else 0) else 0)\<rparr>"

text \<open>A transaction of one input with no script, a second one whose empty script has a
  pointer, an output and the test \<^verbatim>\<open>is_p2sh\<close> for it.\<close>

definition tx_example :: "unit bitcoin_tx" where
  "tx_example = \<lparr>input = [\<lparr>script_length = 0, script = None\<rparr>]\<rparr>"

definition tx_example2 :: "unit bitcoin_tx" where
  "tx_example2 = \<lparr>input = [\<lparr>script_length = 0, script = None\<rparr>,
                            \<lparr>script_length = 0, script = Some []\<rparr>]\<rparr>"

definition output_example :: bitcoin_tx_output where
  "output_example =
     \<lparr>bitcoin_tx_output.script_length = 3,
      bitcoin_tx_output.script = Some [0xA9, 0x14, 0x87]\<rparr>"

definition is_p2sh_example :: "u8 list option \<Rightarrow> nat \<Rightarrow> bool" where
  "is_p2sh_example scr len =
     (case scr of None \<Rightarrow> False | Some bs \<Rightarrow> 0 < len \<and> hd bs = 0xA9 \<and> last (take len bs) = 0x87)"

definition digest_example :: sha256_double where
  "digest_example = [3, 0xA9, 0x14, 0x87, 1, 0, 0, 0]"

definition key_a :: "u8 list" where
  "key_a = [2, 1]"

definition key_b :: "u8 list" where
  "key_b = [3, 7]"

definition sig_a :: signature where
  "sig_a =
     \<lparr>r = [0, 0, 0, 0, 0, 0, 0, 0, 0, 0, 0, 0, 0, 0, 0, 0,
           0, 0, 0, 0, 0, 0, 0, 0, 0, 0, 0, 0, 0, 0, 2, 1],
      s = [0, 0, 0, 0, 0, 0, 0, 0, 0, 0, 0, 0, 0, 0, 0, 0,
           0, 0, 0, 0, 0, 0, 0, 0, 0, 0, 0, 0, 0, 0, 0, 4]\<rparr>"

definition sig_b :: signature where
  "sig_b =
     \<lparr>r = [0, 0, 0, 0, 0, 0, 0, 0, 0, 0, 0, 0, 0, 0, 0, 0,
           0, 0, 0, 0, 0, 0, 0, 0, 0, 0, 0, 0, 0, 0, 3, 7],
      s = [0, 0, 0, 0, 0, 0, 0, 0, 0, 0, 0, 0, 0, 0, 0, 0,
           0, 0, 0, 0, 0, 0, 0, 0, 0, 0, 0, 0, 0, 0, 0, 6]\<rparr>"

section \<open>Facts about bytes and words\<close>

lemma length8_cases:
  "length bs = 8 \<Longrightarrow> \<exists>b0 b1 b2 b3 b4 b5 b6 b7. bs = [b0, b1, b2, b3, b4, b5, b6, b7]"
  by (auto simp: length_Suc_conv numeral_eq_Suc)

lemma byte_at_shift_in_0: "byte_at (shift_in a b) 0 = b"
  unfolding byte_at_def shift_in_def
  by (rule bit_eqI) (auto simp: bit_simps)

lemma byte_at_shift_in_Suc: "i < 7 \<Longrightarrow> byte_at (shift_in a b) (Suc i) = byte_at a i"
  unfolding byte_at_def shift_in_def
  by (rule bit_eqI) (auto simp: bit_simps dest: bit_imp_le_length)

lemma be_bytes_of_u64_of_be_bytes8:
  "be_bytes_of_u64 (u64_of_be_bytes [b0, b1, b2, b3, b4, b5, b6, b7])
     = [b0, b1, b2, b3, b4, b5, b6, b7]"
  unfolding be_bytes_of_u64_def u64_of_be_bytes_def
  by (simp add: byte_at_shift_in_0 byte_at_shift_in_Suc eval_nat_numeral)

lemma be_bytes_of_u64_of_be_bytes:
  "length bs = 8 \<Longrightarrow> be_bytes_of_u64 (u64_of_be_bytes bs) = bs"
  using length8_cases [of bs] be_bytes_of_u64_of_be_bytes8 by auto

lemma length_be_bytes_of_u64 [simp]: "length (be_bytes_of_u64 w) = 8"
  by (simp add: be_bytes_of_u64_def)

lemma length_bytes_of_u64 [simp]: "length (bytes_of_u64 e w) = 8"
  by (cases e) (simp_all add: bytes_of_u64_def)

lemma bytes_of_u64_of_bytes:
  "length bs = 8 \<Longrightarrow> bytes_of_u64 e (u64_of_bytes e bs) = bs"
  by (cases e) (simp_all add: bytes_of_u64_def u64_of_bytes_def be_bytes_of_u64_of_be_bytes)

lemma length_bytes_at:
  "off + n \<le> length bs \<Longrightarrow> length (bytes_at bs off n) = n"
  by (simp add: bytes_at_def)

lemma memcpy4:
  assumes "length dst = 32"
    and "length c1 = 8" and "length c2 = 8" and "length c3 = 8" and "length c4 = 8"
  shows "memcpy (memcpy (memcpy (memcpy dst 0 c1) 8 c2) 16 c3) 24 c4 = c1 @ c2 @ c3 @ c4"
  using assms by (simp add: memcpy_def)

lemma chunks4:
  assumes "length bs = 32"
  shows "bytes_at bs 0 8 @ bytes_at bs 8 8 @ bytes_at bs 16 8 @ bytes_at bs 24 8 = bs"
proof -
  have "take 8 (drop 24 bs) = drop 24 bs"
    using assms by simp
  moreover have "take 8 (drop 16 bs) @ drop 24 bs = drop 16 bs"
    using append_take_drop_id [of 8 "drop 16 bs"] by simp
  moreover have "take 8 (drop 8 bs) @ drop 16 bs = drop 8 bs"
    using append_take_drop_id [of 8 "drop 8 bs"] by simp
  moreover have "take 8 bs @ drop 8 bs = bs"
    by simp
  ultimately show ?thesis
    by (simp add: bytes_at_def)
qed

text \<open>The other direction: the bytes of a word give the word back.\<close>

lemma shift_in_drop_bit:
  "shift_in (drop_bit (8 * Suc i) w) (byte_at w i) = drop_bit (8 * i) w"
  unfolding byte_at_def shift_in_def
  by (rule bit_eqI) (auto simp: bit_simps)

lemma u64_of_be_bytes_of_u64: "u64_of_be_bytes (be_bytes_of_u64 w) = w"
proof -
  have 7: "shift_in 0 (byte_at w 7) = drop_bit 56 w"
    using shift_in_drop_bit [of 7 w] by simp
  have 6: "shift_in (drop_bit 56 w) (byte_at w 6) = drop_bit 48 w"
    using shift_in_drop_bit [of 6 w] by simp
  have 5: "shift_in (drop_bit 48 w) (byte_at w 5) = drop_bit 40 w"
    using shift_in_drop_bit [of 5 w] by simp
  have 4: "shift_in (drop_bit 40 w) (byte_at w 4) = drop_bit 32 w"
    using shift_in_drop_bit [of 4 w] by simp
  have 3: "shift_in (drop_bit 32 w) (byte_at w 3) = drop_bit 24 w"
    using shift_in_drop_bit [of 3 w] by simp
  have 2: "shift_in (drop_bit 24 w) (byte_at w 2) = drop_bit 16 w"
    using shift_in_drop_bit [of 2 w] by simp
  have 1: "shift_in (drop_bit 16 w) (byte_at w (Suc 0)) = drop_bit 8 w"
    using shift_in_drop_bit [of "Suc 0" w] by simp
  have 0: "shift_in (drop_bit 8 w) (byte_at w 0) = w"
    using shift_in_drop_bit [of 0 w] by simp
  show ?thesis
    by (simp add: u64_of_be_bytes_def be_bytes_of_u64_def 7 6 5 4 3 2 1 0)
qed

lemma u64_of_bytes_of_u64: "u64_of_bytes e (bytes_of_u64 e w) = w"
  by (cases e) (simp_all add: u64_of_bytes_def bytes_of_u64_def u64_of_be_bytes_of_u64)


lemma uint_byte_at: "uint (byte_at w i) = uint w div 2 ^ (8 * i) mod 256"
proof -
  have "uint (byte_at w i) = take_bit 8 (drop_bit (8 * i) (take_bit 64 (uint w)))"
    by (simp only: byte_at_def unsigned_ucast_eq unsigned_drop_bit_eq) simp
  also have "take_bit 64 (uint w) = uint w"
    using take_bit_int_eq_self [of "uint w" 64] uint_lt2p [of w] by simp
  finally show ?thesis
    by (simp add: take_bit_eq_mod drop_bit_eq_div)
qed

text \<open>The bytes of a word, written out.\<close>

lemma bytes_of_u64_explicit:
  "bytes_of_u64 e w
     = map (\<lambda>i. ucast (drop_bit (8 * i) w))
         (case e of BigEndian \<Rightarrow> [7, 6, 5, 4, 3, 2, 1, 0] | LittleEndian \<Rightarrow> [0, 1, 2, 3, 4, 5, 6, 7])"
  by (cases e) (simp_all add: bytes_of_u64_def be_bytes_of_u64_def byte_at_def)

lemma bytes_at_append4:
  assumes "length c1 = 8" and "length c2 = 8" and "length c3 = 8" and "length c4 = 8"
  shows "bytes_at (c1 @ c2 @ c3 @ c4) 0 8 = c1" and "bytes_at (c1 @ c2 @ c3 @ c4) 8 8 = c2"
    and "bytes_at (c1 @ c2 @ c3 @ c4) 16 8 = c3" and "bytes_at (c1 @ c2 @ c3 @ c4) 24 8 = c4"
  using assms by (simp_all add: bytes_at_def)

text \<open>What \<^verbatim>\<open>proto_to_signature\<close> leaves in the caller's structure.\<close>

lemma proto_to_signature_eq:
  assumes "wf_signature sg0"
  shows "proto_to_signature e pb sg0 =
    (let sg = \<lparr>r = bytes_of_u64 e (r1 pb) @ bytes_of_u64 e (r2 pb)
                   @ bytes_of_u64 e (r3 pb) @ bytes_of_u64 e (r4 pb),
               s = bytes_of_u64 e (s1 pb) @ bytes_of_u64 e (s2 pb)
                   @ bytes_of_u64 e (s3 pb) @ bytes_of_u64 e (s4 pb)\<rparr>
     in (sg, s_even sg))"
proof -
  have lr: "length (r sg0) = 32" and ls: "length (s sg0) = 32"
    using assms by (simp_all add: wf_signature_def)
  show ?thesis
    unfolding proto_to_signature_def Let_def
    by (simp add: memcpy4 [OF lr] memcpy4 [OF ls] s_even_def)
qed

lemma word_and_1_eq_0: "((x::u8) AND 1 = 0) = (\<not> bit x 0)"
  by (simp add: and_one_eq bit_0 even_iff_mod_2_eq_zero)

lemma nth_31_append4:
  assumes "length c1 = 8" and "length c2 = 8" and "length c3 = 8" and "length c4 = 8"
  shows "(c1 @ c2 @ c3 @ c4) ! 31 = last c4"
  using assms length8_cases [of c4] by (auto simp: nth_append)

lemma last_bytes_of_u64:
  "last (bytes_of_u64 e w) = byte_at w (case e of BigEndian \<Rightarrow> 0 | LittleEndian \<Rightarrow> 7)"
  by (cases e) (simp_all add: bytes_of_u64_def be_bytes_of_u64_def)

lemma bit_byte_at_0: "bit (byte_at w i) 0 = bit w (8 * i)"
  by (simp add: byte_at_def bit_simps)

text \<open>The flag of \<^verbatim>\<open>proto_to_signature\<close> is one bit of \<open>s4\<close>.\<close>

lemma proto_to_signature_flag:
  assumes "wf_signature sg0"
  shows "snd (proto_to_signature e pb sg0)
     = (\<not> bit (s4 pb) (case e of BigEndian \<Rightarrow> 0 | LittleEndian \<Rightarrow> 56))"
  by (cases e)
    (simp_all add: proto_to_signature_eq [OF assms] s_even_def nth_31_append4 last_bytes_of_u64
      word_and_1_eq_0 bit_byte_at_0)

text \<open>Reading back the words made of the chunks of a signature.\<close>

lemma proto_to_signature_of_chunks:
  assumes "wf_signature x" and "wf_signature sg0"
  shows "proto_to_signature e
      \<lparr>r1 = u64_of_bytes e (bytes_at (r x) 0 8), r2 = u64_of_bytes e (bytes_at (r x) 8 8),
       r3 = u64_of_bytes e (bytes_at (r x) 16 8), r4 = u64_of_bytes e (bytes_at (r x) 24 8),
       s1 = u64_of_bytes e (bytes_at (s x) 0 8), s2 = u64_of_bytes e (bytes_at (s x) 8 8),
       s3 = u64_of_bytes e (bytes_at (s x) 16 8), s4 = u64_of_bytes e (bytes_at (s x) 24 8)\<rparr>
      sg0 = (x, s_even x)"
proof -
  have lr: "length (r x) = 32" and ls: "length (s x) = 32"
    using assms(1) by (simp_all add: wf_signature_def)
  show ?thesis
    by (simp add: proto_to_signature_eq [OF assms(2)] bytes_of_u64_of_bytes length_bytes_at
        lr ls chunks4 s_even_def)
qed

section \<open>Facts about big numbers\<close>

lemma int_of_be_bytes_snoc: "int_of_be_bytes (bs @ [b]) = int_of_be_bytes bs * 256 + uint b"
  by (simp add: int_of_be_bytes_def)

lemma int_of_be_bytes_zeros: "int_of_be_bytes (replicate k 0 @ bs) = int_of_be_bytes bs"
  by (induction k) (simp_all add: int_of_be_bytes_def)

lemma int_of_be_bytes_append:
  "int_of_be_bytes (as @ bs) = int_of_be_bytes as * 256 ^ length bs + int_of_be_bytes bs"
proof (induction bs rule: rev_induct)
  case Nil
  then show ?case
    by (simp add: int_of_be_bytes_def)
next
  case (snoc b bs)
  have "int_of_be_bytes (as @ bs @ [b]) = int_of_be_bytes (as @ bs) * 256 + uint b"
    using int_of_be_bytes_snoc [of "as @ bs" b] by simp
  then show ?case
    using snoc by (simp add: int_of_be_bytes_snoc algebra_simps)
qed

text \<open>Four chunks of eight bytes, the first the most significant.\<close>

lemma int_of_be_bytes_append4:
  assumes "length c2 = 8" and "length c3 = 8" and "length c4 = 8"
  shows "int_of_be_bytes (c1 @ c2 @ c3 @ c4)
    = ((int_of_be_bytes c1 * 2 ^ 64 + int_of_be_bytes c2) * 2 ^ 64 + int_of_be_bytes c3) * 2 ^ 64
      + int_of_be_bytes c4"
proof -
  have p: "(256::int) ^ 8 = 2 ^ 64"
    by simp
  have "int_of_be_bytes (c1 @ c2 @ c3 @ c4)
      = int_of_be_bytes ((c1 @ c2) @ c3) * 256 ^ 8 + int_of_be_bytes c4"
    using int_of_be_bytes_append [of "(c1 @ c2) @ c3" c4] assms by simp
  also have "int_of_be_bytes ((c1 @ c2) @ c3)
      = int_of_be_bytes (c1 @ c2) * 256 ^ 8 + int_of_be_bytes c3"
    using int_of_be_bytes_append [of "c1 @ c2" c3] assms by simp
  also have "int_of_be_bytes (c1 @ c2) = int_of_be_bytes c1 * 256 ^ 8 + int_of_be_bytes c2"
    using int_of_be_bytes_append [of c1 c2] assms by simp
  finally show ?thesis
    by (simp only: p)
qed

text \<open>The big-endian bytes of a word are its value.\<close>

lemma int_of_be_bytes_Cons:
  "int_of_be_bytes (b # bs) = uint b * 256 ^ length bs + int_of_be_bytes bs"
  using int_of_be_bytes_append [of "[b]" bs] by (simp add: int_of_be_bytes_def)

lemma int_of_be_bytes_byte_at:
  "int_of_be_bytes (map (byte_at w) (rev [0..<n])) = uint w mod 2 ^ (8 * n)"
proof (induction n)
  case 0
  then show ?case
    by (simp add: int_of_be_bytes_def)
next
  case (Suc n)
  have e: "(2::int) ^ (8 * Suc n) = 2 ^ (8 * n) * 256" and p: "(256::int) ^ n = 2 ^ (8 * n)"
    by (simp_all add: power_add power_mult)
  have "int_of_be_bytes (map (byte_at w) (rev [0..<Suc n]))
      = uint (byte_at w n) * 256 ^ n + uint w mod 2 ^ (8 * n)"
    using Suc by (simp add: int_of_be_bytes_Cons)
  also have "\<dots> = 2 ^ (8 * n) * (uint w div 2 ^ (8 * n) mod 256) + uint w mod 2 ^ (8 * n)"
    by (simp only: uint_byte_at p mult.commute)
  also have "\<dots> = uint w mod (2 ^ (8 * n) * 256)"
    by (rule zmod_zmult2_eq [symmetric]) simp
  finally show ?case
    by (simp only: e)
qed

lemma rev_upt_8: "rev [0..<8] = [7, 6, 5, 4, 3, 2, 1, 0]"
  by (simp add: upt_rec)

lemma int_of_be_bytes_of_u64: "int_of_be_bytes (be_bytes_of_u64 w) = uint w"
proof -
  have "int_of_be_bytes (be_bytes_of_u64 w) = uint w mod 2 ^ 64"
    using int_of_be_bytes_byte_at [of w 8] by (simp add: be_bytes_of_u64_def rev_upt_8)
  also have "\<dots> = uint w"
    using uint_lt2p [of w] by simp
  finally show ?thesis .
qed

lemma int_of_bytes_of_u64_BigEndian: "int_of_be_bytes (bytes_of_u64 BigEndian w) = uint w"
  by (simp add: bytes_of_u64_def int_of_be_bytes_of_u64)

lemma uint_byte_of_nat: "uint (word_of_nat (n mod 256) :: u8) = int (n mod 256)"
  by (simp add: uint_nat unat_of_nat)

lemma int_of_be_bytes_of_nat: "int_of_be_bytes (be_bytes_of_nat n) = int n"
proof (induction n rule: be_bytes_of_nat.induct)
  case (1 n)
  show ?case
  proof (cases "n = 0")
    case True
    then show ?thesis
      by (simp add: be_bytes_of_nat.simps int_of_be_bytes_def)
  next
    case False
    have "int_of_be_bytes (be_bytes_of_nat n) = int (n div 256) * 256 + int (n mod 256)"
      using False "1.IH"
      by (subst be_bytes_of_nat.simps) (simp add: int_of_be_bytes_snoc uint_byte_of_nat)
    also have "\<dots> = int n"
      by (simp add: zdiv_int zmod_int)
    finally show ?thesis .
  qed
qed

lemma length_be_bytes_of_nat: "n < 256 ^ k \<Longrightarrow> length (be_bytes_of_nat n) \<le> k"
proof (induction n arbitrary: k rule: be_bytes_of_nat.induct)
  case (1 n)
  show ?case
  proof (cases "n = 0")
    case True
    then show ?thesis
      by (simp add: be_bytes_of_nat.simps)
  next
    case False
    with "1.prems" obtain k' where k: "k = Suc k'"
      by (cases k) auto
    have "n div 256 < 256 ^ k'"
      using "1.prems" k by (simp add: less_mult_imp_div_less)
    then have "length (be_bytes_of_nat (n div 256)) \<le> k'"
      using "1.IH" [OF False] by simp
    then show ?thesis
      using False k by (subst be_bytes_of_nat.simps) simp
  qed
qed

lemma last_be_bytes_of_nat:
  "n \<noteq> 0 \<Longrightarrow> last (be_bytes_of_nat n) = word_of_nat (n mod 256)"
  by (subst be_bytes_of_nat.simps) simp

lemma be_bytes_of_nat_eq_Nil: "(be_bytes_of_nat n = []) = (n = 0)"
  by (subst be_bytes_of_nat.simps) simp

lemma odd_mod_256: "odd (n mod 256) = odd (n::nat)"
proof -
  have "(2::nat) dvd 256"
    by simp
  then show ?thesis
    by (simp add: dvd_mod_iff)
qed

lemma bit0_byte_of_nat: "bit (word_of_nat (n mod 256) :: u8) 0 = odd n"
proof -
  have "bit (word_of_nat (n mod 256) :: u8) 0 = odd (n mod 256)"
    by (simp add: bit_0 even_of_nat_iff del: of_nat_mod)
  then show ?thesis
    by (simp only: odd_mod_256)
qed

lemma pack_zeroed:
  assumes "length bs \<le> 32"
  shows "memcpy (replicate 32 0) (32 - length bs) bs = replicate (32 - length bs) 0 @ bs"
  using assms by (simp add: memcpy_def)

lemma pack_nth_31:
  assumes "length bs \<le> 32"
  shows "(replicate (32 - length bs) 0 @ bs) ! 31 = (if bs = [] then 0 else last bs)"
proof (cases "bs = []")
  case True
  then show ?thesis
    by simp
next
  case False
  then have "0 < length bs"
    by simp
  with assms have "31 - (32 - length bs) = length bs - 1" and "\<not> 31 < 32 - length bs"
    by linarith+
  then show ?thesis
    using False by (simp add: nth_append last_conv_nth)
qed

lemma replicate_31_zero:
  "replicate 31 (0::u8) =
     [0, 0, 0, 0, 0, 0, 0, 0, 0, 0, 0, 0, 0, 0, 0, 0,
      0, 0, 0, 0, 0, 0, 0, 0, 0, 0, 0, 0, 0, 0, 0]"
  by (simp add: eval_nat_numeral)

text \<open>A number of at most 32 bytes, packed at the end of a zeroed 32-byte array.\<close>

lemma BN_num_bytes_le_32:
  assumes "\<bar>a\<bar> < 2 ^ 256"
  shows "BN_num_bytes a \<le> 32"
proof -
  have "nat \<bar>a\<bar> < 2 ^ 256"
    using assms by (simp add: nat_less_iff)
  then have "nat \<bar>a\<bar> < 256 ^ 32"
    by simp
  then show ?thesis
    unfolding BN_num_bytes_def BN_bn2bin_def by (rule length_be_bytes_of_nat)
qed

lemma BN_pack:
  assumes len: "BN_num_bytes a \<le> 32"
  shows "length (memcpy (replicate 32 0) (32 - BN_num_bytes a) (BN_bn2bin a)) = 32"
    and "int_of_be_bytes (memcpy (replicate 32 0) (32 - BN_num_bytes a) (BN_bn2bin a)) = \<bar>a\<bar>"
    and "bit (memcpy (replicate 32 0) (32 - BN_num_bytes a) (BN_bn2bin a) ! 31) 0 = odd a"
proof -
  have eq: "memcpy (replicate 32 0) (32 - BN_num_bytes a) (BN_bn2bin a)
      = replicate (32 - length (BN_bn2bin a)) 0 @ BN_bn2bin a"
    using len unfolding BN_num_bytes_def by (rule pack_zeroed)
  show "length (memcpy (replicate 32 0) (32 - BN_num_bytes a) (BN_bn2bin a)) = 32"
    using len by (simp add: eq) (simp add: BN_num_bytes_def)
  show "int_of_be_bytes (memcpy (replicate 32 0) (32 - BN_num_bytes a) (BN_bn2bin a)) = \<bar>a\<bar>"
    by (simp add: eq int_of_be_bytes_zeros) (simp add: BN_bn2bin_def int_of_be_bytes_of_nat)
  have "bit ((replicate (32 - length (BN_bn2bin a)) 0 @ BN_bn2bin a) ! 31) 0 = odd a"
  proof (cases "a = 0")
    case True
    then show ?thesis
      by (simp add: BN_bn2bin_def be_bytes_of_nat.simps)
  next
    case False
    then have nz: "nat \<bar>a\<bar> \<noteq> 0"
      by simp
    have "(replicate (32 - length (BN_bn2bin a)) 0 @ BN_bn2bin a) ! 31 = last (BN_bn2bin a)"
      using len nz pack_nth_31 [of "BN_bn2bin a"]
      by (simp add: BN_num_bytes_def) (simp add: BN_bn2bin_def be_bytes_of_nat_eq_Nil)
    also have "\<dots> = word_of_nat (nat \<bar>a\<bar> mod 256)"
      unfolding BN_bn2bin_def by (rule last_be_bytes_of_nat [OF nz])
    finally show ?thesis
      by (simp only: bit0_byte_of_nat) (simp add: even_nat_iff)
  qed
  then show "bit (memcpy (replicate 32 0) (32 - BN_num_bytes a) (BN_bn2bin a) ! 31) 0 = odd a"
    by (simp only: eq)
qed

section \<open>Facts about transactions\<close>

lemma inputs_zeroed_nth:
  "inputs_zeroed inps \<Longrightarrow> i < length inps \<Longrightarrow> script_length (inps ! i) = 0"
  by (induction inps arbitrary: i) (auto simp: nth_Cons split: nat.splits)

lemma inputs_zeroed_update:
  "inputs_zeroed inps \<Longrightarrow> script_length inp = 0 \<Longrightarrow> inputs_zeroed (inps[i := inp])"
  by (induction inps arbitrary: i) (auto split: nat.splits)

text \<open>When no assertion fails: the transaction as it is left, and the digest of the
  transaction as it is hashed.\<close>

lemma sha256_tx_one_input_eq:
  assumes "input_num < length (input tx)" and "inputs_zeroed (input tx)"
  shows "sha256_tx_one_input H tx input_num scr script_len =
    (tx\<lparr>input := (input tx)[input_num := (input tx ! input_num)\<lparr>script := None\<rparr>]\<rparr>,
     Inr (sha256_double_done H (sha256_le32 H (sha256_tx H (sha256_init H (SHA256_INIT H))
       (tx\<lparr>input := (input tx)[input_num :=
          (input tx ! input_num)\<lparr>script_length := script_len, script := scr\<rparr>]\<rparr>))
       (SIGHASH_ALL H))))"
proof -
  have "script_length (input tx ! input_num) = 0"
    using assms by (simp add: inputs_zeroed_nth)
  then have "(input tx ! input_num)\<lparr>script_length := 0, script := None\<rparr>
      = (input tx ! input_num)\<lparr>script := None\<rparr>"
    by (cases "input tx ! input_num") simp
  then show ?thesis
    using assms by (simp add: sha256_tx_one_input_def Let_def)
qed

section \<open>Facts about verification\<close>

lemma check_signed_hash_eq:
  assumes "s_even sg"
  shows "check_signed_hash E hash sg pk =
    Inr (case o2i_ECPublicKey E pk of
           None \<Rightarrow> False
         | Some eckey \<Rightarrow>
             ECDSA_do_verify E hash
               (int_of_be_bytes (take 32 (r sg)), int_of_be_bytes (take 32 (s sg))) eckey
             \<notin> {0, - 1})"
  using assms
  by (simp add: check_signed_hash_def BN_bin2bn_def Let_def split: option.splits)

section \<open>The codec\<close>

text \<open>
  C1. For every canonical signature \<open>x\<close> (the low bit of the last byte of \<open>s\<close> is 0),
  \<^verbatim>\<open>signature_to_proto\<close> returns a wire record, and \<^verbatim>\<open>proto_to_signature\<close> on that
  record returns true and leaves exactly the 32 bytes of \<open>r\<close> and the 32 bytes of \<open>s\<close>
  of \<open>x\<close> in the caller's structure, whatever that structure held before and
  whatever the byte order of the host.
\<close>

theorem signature_roundtrip:
  assumes "wf_signature x" and "s_even x" and "wf_signature out"
  shows "\<exists>pb. signature_to_proto e x = Inr pb \<and> proto_to_signature e pb out = (x, True)"
proof -
  show ?thesis
    using assms(2)
    by (simp add: signature_to_proto_def proto_to_signature_of_chunks [OF assms(1,3)])
qed

theorem signature_roundtrip_witness:
  "wf_signature sig_example \<and> s_even sig_example \<and> wf_signature sig_zero \<and>
   signature_to_proto LittleEndian sig_example = Inr pb_example_le \<and>
   proto_to_signature LittleEndian pb_example_le sig_zero = (sig_example, True)"
  using signature_roundtrip [of sig_example sig_zero LittleEndian]
  by (simp add: wf_signature_def s_even_def sig_example_def sig_zero_def pb_example_le_def
      signature_to_proto_def proto_to_signature_def memcpy_def bytes_at_def
      u64_of_bytes_def bytes_of_u64_def u64_of_be_bytes_def be_bytes_of_u64_def
      shift_in_def byte_at_def)

text \<open>
  An odd \<open>s\<close> stops \<^verbatim>\<open>signature_to_proto\<close> at its assertion: no wire record comes back.
\<close>

theorem signature_to_proto_aborts_on_odd_s:
  "wf_signature sig_odd \<and> signature_to_proto LittleEndian sig_odd = Inl AssertionFailed
   \<and> signature_to_proto BigEndian sig_odd = Inl AssertionFailed"
  by (simp add: wf_signature_def sig_odd_def signature_to_proto_def s_even_def)

text \<open>
  C2, as amended. \<^verbatim>\<open>signature_to_proto\<close> returns a wire record exactly for the
  signatures whose \<open>s\<close> has the low bit of its last byte clear; for every other
  signature its assertion fails and the process aborts. Nothing else makes it fail.
\<close>

theorem signature_to_proto_total_iff:
  "(\<exists>pb. signature_to_proto e x = Inr pb) = s_even x
   \<and> (signature_to_proto e x = Inl AssertionFailed) = (\<not> s_even x)"
  by (simp add: signature_to_proto_def)

theorem signature_to_proto_total_iff_witness:
  "s_even sig_example \<and> (\<exists>pb. signature_to_proto BigEndian sig_example = Inr pb)
   \<and> signature_to_proto BigEndian sig_example \<noteq> Inl AssertionFailed"
  using signature_to_proto_total_iff [of BigEndian sig_example]
  by (simp add: s_even_def sig_example_def)

text \<open>
  C7. For every wire record, \<^verbatim>\<open>proto_to_signature\<close> leaves in the caller's structure
  the eight bytes of \<open>r1\<close>, then those of \<open>r2\<close>, \<open>r3\<close> and \<open>r4\<close>, as \<open>r\<close>, and the eight
  bytes of \<open>s1\<close>, \<open>s2\<close>, \<open>s3\<close> and \<open>s4\<close> as \<open>s\<close>. The bytes of a word are its bytes in
  memory: byte \<open>i\<close> of the word is \<open>ucast (drop_bit (8 * i) w)\<close>, the bytes 7, 6, .., 0
  on a big-endian host and 0, 1, .., 7 on a little-endian one, so that each 8-byte
  chunk of the result, read back as a word, is the word of the record. The first word
  is the most significant chunk: as big-endian numbers \<open>r\<close> and \<open>s\<close> are their four
  chunks weighted by \<open>2 ^ 192\<close>, \<open>2 ^ 128\<close>, \<open>2 ^ 64\<close> and 1, and on a big-endian host
  the chunks are the values of the words. Then the function tests the low bit of the
  last byte of that \<open>s\<close>: when the bit is set it returns false, the non-canonical
  outcome, and true otherwise.
\<close>

theorem proto_to_signature_reassembles:
  assumes "wf_signature out"
  shows "\<exists>sg. proto_to_signature e pb out = (sg, \<not> bit (s sg ! 31) 0)
     \<and> r sg = concat (map (\<lambda>w. map (\<lambda>i. ucast (drop_bit (8 * i) w))
           (case e of BigEndian \<Rightarrow> [7, 6, 5, 4, 3, 2, 1, 0]
            | LittleEndian \<Rightarrow> [0, 1, 2, 3, 4, 5, 6, 7])) [r1 pb, r2 pb, r3 pb, r4 pb])
     \<and> s sg = concat (map (\<lambda>w. map (\<lambda>i. ucast (drop_bit (8 * i) w))
           (case e of BigEndian \<Rightarrow> [7, 6, 5, 4, 3, 2, 1, 0]
            | LittleEndian \<Rightarrow> [0, 1, 2, 3, 4, 5, 6, 7])) [s1 pb, s2 pb, s3 pb, s4 pb])
     \<and> map (u64_of_bytes e) (chunks sg) = wire_words pb
     \<and> (e = BigEndian \<longrightarrow>
          int_of_be_bytes (r sg)
            = ((uint (r1 pb) * 2 ^ 64 + uint (r2 pb)) * 2 ^ 64 + uint (r3 pb)) * 2 ^ 64
              + uint (r4 pb)
        \<and> int_of_be_bytes (s sg)
            = ((uint (s1 pb) * 2 ^ 64 + uint (s2 pb)) * 2 ^ 64 + uint (s3 pb)) * 2 ^ 64
              + uint (s4 pb))
     \<and> r sg = bytes_of_u64 e (r1 pb) @ bytes_of_u64 e (r2 pb)
              @ bytes_of_u64 e (r3 pb) @ bytes_of_u64 e (r4 pb)
     \<and> s sg = bytes_of_u64 e (s1 pb) @ bytes_of_u64 e (s2 pb)
              @ bytes_of_u64 e (s3 pb) @ bytes_of_u64 e (s4 pb)
     \<and> int_of_be_bytes (r sg)
       = ((int_of_be_bytes (bytes_of_u64 e (r1 pb)) * 2 ^ 64
            + int_of_be_bytes (bytes_of_u64 e (r2 pb))) * 2 ^ 64
            + int_of_be_bytes (bytes_of_u64 e (r3 pb))) * 2 ^ 64
            + int_of_be_bytes (bytes_of_u64 e (r4 pb))
     \<and> int_of_be_bytes (s sg)
       = ((int_of_be_bytes (bytes_of_u64 e (s1 pb)) * 2 ^ 64
            + int_of_be_bytes (bytes_of_u64 e (s2 pb))) * 2 ^ 64
            + int_of_be_bytes (bytes_of_u64 e (s3 pb))) * 2 ^ 64
            + int_of_be_bytes (bytes_of_u64 e (s4 pb))"
proof -
  define sg where "sg =
      \<lparr>r = bytes_of_u64 e (r1 pb) @ bytes_of_u64 e (r2 pb)
           @ bytes_of_u64 e (r3 pb) @ bytes_of_u64 e (r4 pb),
       s = bytes_of_u64 e (s1 pb) @ bytes_of_u64 e (s2 pb)
           @ bytes_of_u64 e (s3 pb) @ bytes_of_u64 e (s4 pb)\<rparr>"
  have rs: "r sg = bytes_of_u64 e (r1 pb) @ bytes_of_u64 e (r2 pb)
              @ bytes_of_u64 e (r3 pb) @ bytes_of_u64 e (r4 pb)"
    "s sg = bytes_of_u64 e (s1 pb) @ bytes_of_u64 e (s2 pb)
              @ bytes_of_u64 e (s3 pb) @ bytes_of_u64 e (s4 pb)"
    by (simp_all add: sg_def)
  have run: "proto_to_signature e pb out = (sg, \<not> bit (s sg ! 31) 0)"
    by (simp add: proto_to_signature_eq [OF assms] s_even_def word_and_1_eq_0 sg_def)
  have explicit_r: "r sg = concat (map (\<lambda>w. map (\<lambda>i. ucast (drop_bit (8 * i) w))
           (case e of BigEndian \<Rightarrow> [7, 6, 5, 4, 3, 2, 1, 0]
            | LittleEndian \<Rightarrow> [0, 1, 2, 3, 4, 5, 6, 7])) [r1 pb, r2 pb, r3 pb, r4 pb])"
    by (simp add: rs flip: bytes_of_u64_explicit)
  have explicit_s: "s sg = concat (map (\<lambda>w. map (\<lambda>i. ucast (drop_bit (8 * i) w))
           (case e of BigEndian \<Rightarrow> [7, 6, 5, 4, 3, 2, 1, 0]
            | LittleEndian \<Rightarrow> [0, 1, 2, 3, 4, 5, 6, 7])) [s1 pb, s2 pb, s3 pb, s4 pb])"
    by (simp add: rs flip: bytes_of_u64_explicit)
  have words: "map (u64_of_bytes e) (chunks sg) = wire_words pb"
    by (simp add: chunks_def wire_words_def rs bytes_at_append4 u64_of_bytes_of_u64)
  have weights_r: "int_of_be_bytes (r sg)
       = ((int_of_be_bytes (bytes_of_u64 e (r1 pb)) * 2 ^ 64
            + int_of_be_bytes (bytes_of_u64 e (r2 pb))) * 2 ^ 64
            + int_of_be_bytes (bytes_of_u64 e (r3 pb))) * 2 ^ 64
            + int_of_be_bytes (bytes_of_u64 e (r4 pb))"
    by (simp add: rs int_of_be_bytes_append4)
  have weights_s: "int_of_be_bytes (s sg)
       = ((int_of_be_bytes (bytes_of_u64 e (s1 pb)) * 2 ^ 64
            + int_of_be_bytes (bytes_of_u64 e (s2 pb))) * 2 ^ 64
            + int_of_be_bytes (bytes_of_u64 e (s3 pb))) * 2 ^ 64
            + int_of_be_bytes (bytes_of_u64 e (s4 pb))"
    by (simp add: rs int_of_be_bytes_append4)
  have numeric: "e = BigEndian \<longrightarrow>
          int_of_be_bytes (r sg)
            = ((uint (r1 pb) * 2 ^ 64 + uint (r2 pb)) * 2 ^ 64 + uint (r3 pb)) * 2 ^ 64
              + uint (r4 pb)
        \<and> int_of_be_bytes (s sg)
            = ((uint (s1 pb) * 2 ^ 64 + uint (s2 pb)) * 2 ^ 64 + uint (s3 pb)) * 2 ^ 64
              + uint (s4 pb)"
    by (simp add: weights_r weights_s int_of_bytes_of_u64_BigEndian)
  show ?thesis
    using run explicit_r explicit_s words numeric rs weights_r weights_s by blast
qed

theorem proto_to_signature_reassembles_witness:
  "wf_signature sig_zero
   \<and> proto_to_signature BigEndian pb_noncanonical sig_zero = (sig_noncanonical, False)
   \<and> bit (s sig_noncanonical ! 31) 0
   \<and> r sig_noncanonical ! 0 = ucast (drop_bit 56 (r1 pb_noncanonical))
   \<and> r sig_noncanonical ! 7 = ucast (r1 pb_noncanonical)
   \<and> int_of_be_bytes (r sig_noncanonical)
       = ((uint (r1 pb_noncanonical) * 2 ^ 64 + uint (r2 pb_noncanonical)) * 2 ^ 64
          + uint (r3 pb_noncanonical)) * 2 ^ 64 + uint (r4 pb_noncanonical)
   \<and> proto_to_signature BigEndian pb_example_be sig_zero = (sig_example, True)
   \<and> proto_to_signature LittleEndian pb_example_le sig_zero = (sig_example, True)"
proof -
  have wf: "wf_signature sig_zero"
    by (simp add: wf_signature_def sig_zero_def)
  have run: "proto_to_signature BigEndian pb_noncanonical sig_zero = (sig_noncanonical, False)"
    by (simp add: s_even_def sig_zero_def sig_noncanonical_def pb_noncanonical_def
        proto_to_signature_def memcpy_def bytes_of_u64_def be_bytes_of_u64_def byte_at_def)
  obtain sg where sg: "proto_to_signature BigEndian pb_noncanonical sig_zero
        = (sg, \<not> bit (s sg ! 31) 0)"
    and num: "BigEndian = BigEndian \<longrightarrow>
      int_of_be_bytes (r sg)
       = ((uint (r1 pb_noncanonical) * 2 ^ 64 + uint (r2 pb_noncanonical)) * 2 ^ 64
          + uint (r3 pb_noncanonical)) * 2 ^ 64 + uint (r4 pb_noncanonical)
      \<and> int_of_be_bytes (s sg)
       = ((uint (s1 pb_noncanonical) * 2 ^ 64 + uint (s2 pb_noncanonical)) * 2 ^ 64
          + uint (s3 pb_noncanonical)) * 2 ^ 64 + uint (s4 pb_noncanonical)"
    using proto_to_signature_reassembles [OF wf, of BigEndian pb_noncanonical] by blast
  have eq: "sg = sig_noncanonical" and odd_s: "bit (s sig_noncanonical ! 31) 0"
    using sg run by auto
  have bytes: "r sig_noncanonical ! 0 = ucast (drop_bit 56 (r1 pb_noncanonical))"
    "r sig_noncanonical ! 7 = ucast (r1 pb_noncanonical)"
    by (simp_all add: sig_noncanonical_def pb_noncanonical_def)
  have be: "proto_to_signature BigEndian pb_example_be sig_zero = (sig_example, True)"
    by (simp add: s_even_def sig_zero_def sig_example_def pb_example_be_def
        proto_to_signature_def memcpy_def bytes_of_u64_def be_bytes_of_u64_def byte_at_def)
  have le: "proto_to_signature LittleEndian pb_example_le sig_zero = (sig_example, True)"
    by (simp add: s_even_def sig_zero_def sig_example_def pb_example_le_def
        proto_to_signature_def memcpy_def bytes_of_u64_def be_bytes_of_u64_def byte_at_def)
  show ?thesis
    using wf run odd_s bytes num be le by (simp add: eq)
qed

text \<open>
  On a little-endian host the first word of the record is not the big-endian value of
  bytes 0..7 of \<open>r\<close>: it is the value of those bytes read in the host's order.
\<close>

theorem signature_to_proto_little_endian_fields:
  "wf_signature sig_example \<and> s_even sig_example
   \<and> signature_to_proto LittleEndian sig_example = Inr pb_example_le
   \<and> r1 pb_example_le = 0x0EE9C49F7A55300B
   \<and> u64_of_be_bytes (bytes_at (r sig_example) 0 8) = 0x0B30557A9FC4E90E
   \<and> r1 pb_example_le \<noteq> u64_of_be_bytes (bytes_at (r sig_example) 0 8)"
  by (simp add: wf_signature_def s_even_def sig_example_def pb_example_le_def
      signature_to_proto_def bytes_at_def u64_of_bytes_def u64_of_be_bytes_def shift_in_def)

text \<open>
  C8, as amended. For every canonical signature, the wire record \<^verbatim>\<open>signature_to_proto\<close>
  returns consists of the eight 64-bit words \<open>r1\<close>..\<open>r4\<close>, \<open>s1\<close>..\<open>s4\<close>, where \<open>r1\<close> is the
  word whose bytes in memory are bytes 0..7 of \<open>r\<close>, \<open>r2\<close> the one of bytes 8..15, and
  so on through \<open>s4\<close> for bytes 24..31 of \<open>s\<close>. The value of each word is the
  interpretation of its chunk in the byte order of the host: the big-endian value on a
  big-endian host, the value of the reversed chunk on a little-endian one.
\<close>

theorem signature_to_proto_fields:
  assumes "wf_signature x" and "s_even x"
  shows "\<exists>pb. signature_to_proto e x = Inr pb
     \<and> map (bytes_of_u64 e) (wire_words pb) = chunks x
     \<and> wire_words pb
       = map (\<lambda>c. u64_of_be_bytes (case e of BigEndian \<Rightarrow> c | LittleEndian \<Rightarrow> rev c)) (chunks x)"
proof -
  have lr: "length (r x) = 32" and ls: "length (s x) = 32"
    using assms(1) by (simp_all add: wf_signature_def)
  define pb where "pb =
      \<lparr>r1 = u64_of_bytes e (bytes_at (r x) 0 8), r2 = u64_of_bytes e (bytes_at (r x) 8 8),
       r3 = u64_of_bytes e (bytes_at (r x) 16 8), r4 = u64_of_bytes e (bytes_at (r x) 24 8),
       s1 = u64_of_bytes e (bytes_at (s x) 0 8), s2 = u64_of_bytes e (bytes_at (s x) 8 8),
       s3 = u64_of_bytes e (bytes_at (s x) 16 8), s4 = u64_of_bytes e (bytes_at (s x) 24 8)\<rparr>"
  have "signature_to_proto e x = Inr pb"
    using assms(2) by (simp add: signature_to_proto_def pb_def)
  moreover have "map (bytes_of_u64 e) (wire_words pb) = chunks x"
    by (simp add: pb_def wire_words_def chunks_def bytes_of_u64_of_bytes length_bytes_at lr ls)
  moreover have "wire_words pb
       = map (\<lambda>c. u64_of_be_bytes (case e of BigEndian \<Rightarrow> c | LittleEndian \<Rightarrow> rev c)) (chunks x)"
    by (cases e) (simp_all add: pb_def wire_words_def chunks_def u64_of_bytes_def)
  ultimately show ?thesis
    by blast
qed

theorem signature_to_proto_fields_witness:
  "wf_signature sig_example \<and> s_even sig_example
   \<and> signature_to_proto BigEndian sig_example = Inr pb_example_be
   \<and> map (bytes_of_u64 BigEndian) (wire_words pb_example_be) = chunks sig_example
   \<and> wire_words pb_example_be = map u64_of_be_bytes (chunks sig_example)"
  using signature_to_proto_fields [of sig_example BigEndian]
  by (simp add: wf_signature_def s_even_def sig_example_def pb_example_be_def
      signature_to_proto_def wire_words_def chunks_def bytes_at_def
      u64_of_bytes_def bytes_of_u64_def u64_of_be_bytes_def be_bytes_of_u64_def
      shift_in_def byte_at_def)

text \<open>
  A failed decoding leaves its output behind: the caller's canonical signature is
  replaced by the non-canonical one of the record.
\<close>

theorem proto_to_signature_overwrites_on_failure:
  "wf_signature sig_example
   \<and> proto_to_signature BigEndian pb_odd sig_example = (sig_odd, False)
   \<and> sig_odd \<noteq> sig_example"
  by (simp add: wf_signature_def sig_example_def sig_odd_def pb_odd_def s_even_def
      proto_to_signature_def memcpy_def bytes_of_u64_def be_bytes_of_u64_def byte_at_def)

text \<open>
  C5, as amended. When decoding a wire signature fails (the reassembled \<open>s\<close> is
  non-canonical), \<^verbatim>\<open>proto_to_signature\<close> returns false, and the caller's signature
  structure then holds the whole reassembled signature: all of \<open>r\<close> and \<open>s\<close> as the
  record gives them, the non-canonical \<open>s\<close> included, and nothing of what it held
  before. The failure is reported by the return value only.
\<close>

theorem proto_to_signature_failure_output:
  assumes "wf_signature out" and "\<not> snd (proto_to_signature e pb out)"
  shows "fst (proto_to_signature e pb out)
       = \<lparr>r = bytes_of_u64 e (r1 pb) @ bytes_of_u64 e (r2 pb)
              @ bytes_of_u64 e (r3 pb) @ bytes_of_u64 e (r4 pb),
          s = bytes_of_u64 e (s1 pb) @ bytes_of_u64 e (s2 pb)
              @ bytes_of_u64 e (s3 pb) @ bytes_of_u64 e (s4 pb)\<rparr>
     \<and> \<not> s_even (fst (proto_to_signature e pb out))"
  using assms(2) by (simp add: proto_to_signature_eq [OF assms(1)] Let_def)

theorem proto_to_signature_failure_output_witness:
  "wf_signature sig_example
   \<and> \<not> snd (proto_to_signature BigEndian pb_odd sig_example)
   \<and> fst (proto_to_signature BigEndian pb_odd sig_example) = sig_odd
   \<and> \<not> s_even sig_odd"
  using proto_to_signature_failure_output [of sig_example BigEndian pb_odd]
  by (simp add: wf_signature_def sig_example_def sig_odd_def pb_odd_def s_even_def
      proto_to_signature_def memcpy_def bytes_of_u64_def be_bytes_of_u64_def byte_at_def)

text \<open>
  C10. \<^verbatim>\<open>proto_to_signature\<close> checks nothing but the parity of the last byte of the
  reassembled \<open>s\<close>, which is one bit of \<open>s4\<close>: every 32-byte \<open>r\<close> and every 32-byte \<open>s\<close>
  with an even last byte is the result of a successful decoding, the values at or
  above the order of the group included. \<^verbatim>\<open>check_signed_hash\<close> makes no range check
  of its own either: for a canonical signature and a key that decodes, its answer is
  the answer of \<^verbatim>\<open>ECDSA_do_verify\<close> on the two numbers as they are, so a value out of
  range is rejected by the verification primitive or not at all.
\<close>

theorem proto_to_signature_checks_parity_only:
  assumes "wf_signature out"
  shows "snd (proto_to_signature e pb out)
       = (\<not> bit (s4 pb) (case e of BigEndian \<Rightarrow> 0 | LittleEndian \<Rightarrow> 56))
     \<and> (length rb = 32 \<and> length sb = 32 \<and> \<not> bit (sb ! 31) 0 \<longrightarrow>
          (\<exists>pb'. proto_to_signature e pb' out = (\<lparr>r = rb, s = sb\<rparr>, True)))
     \<and> (s_even sg \<and> o2i_ECPublicKey E pk = Some eckey \<longrightarrow>
          check_signed_hash E hash sg pk
          = Inr (ECDSA_do_verify E hash
                   (int_of_be_bytes (take 32 (r sg)), int_of_be_bytes (take 32 (s sg))) eckey
                 \<notin> {0, - 1}))"
proof (intro conjI impI)
  show "snd (proto_to_signature e pb out)
       = (\<not> bit (s4 pb) (case e of BigEndian \<Rightarrow> 0 | LittleEndian \<Rightarrow> 56))"
    by (rule proto_to_signature_flag [OF assms])
next
  assume a: "length rb = 32 \<and> length sb = 32 \<and> \<not> bit (sb ! 31) 0"
  then have wf: "wf_signature \<lparr>r = rb, s = sb\<rparr>" and ev: "s_even \<lparr>r = rb, s = sb\<rparr>"
    by (simp_all add: wf_signature_def s_even_def word_and_1_eq_0)
  show "\<exists>pb'. proto_to_signature e pb' out = (\<lparr>r = rb, s = sb\<rparr>, True)"
    using proto_to_signature_of_chunks [OF wf assms, of e] ev by auto
next
  assume "s_even sg \<and> o2i_ECPublicKey E pk = Some eckey"
  then show "check_signed_hash E hash sg pk
          = Inr (ECDSA_do_verify E hash
                   (int_of_be_bytes (take 32 (r sg)), int_of_be_bytes (take 32 (s sg))) eckey
                 \<notin> {0, - 1})"
    by (simp add: check_signed_hash_eq)
qed

theorem proto_to_signature_checks_parity_only_witness:
  "wf_signature sig_zero
   \<and> proto_to_signature LittleEndian pb_max_le sig_zero = (sig_max, True)
   \<and> secp256k1_order \<le> int_of_be_bytes (r sig_max)
   \<and> secp256k1_order \<le> int_of_be_bytes (s sig_max)
   \<and> s_even sig_max \<and> o2i_ECPublicKey example_ecdsa key_a = Some 513
   \<and> check_signed_hash example_ecdsa digest_example sig_max key_a = Inr False"
  using proto_to_signature_checks_parity_only
    [of sig_zero LittleEndian pb_max_le "r sig_max" "s sig_max" sig_max example_ecdsa key_a 513
      digest_example]
  by (simp add: wf_signature_def s_even_def sig_zero_def sig_max_def pb_max_le_def
      proto_to_signature_def memcpy_def bytes_of_u64_def be_bytes_of_u64_def byte_at_def
      secp256k1_order_def int_of_be_bytes_def example_ecdsa_def key_a_def)

section \<open>Signing\<close>

text \<open>
  \<^verbatim>\<open>sign_hash\<close> reads the order from the group of the key. On a larger group, here
  secp384r1, a raw \<open>r\<close> within the contract of the primitive can need 33 bytes, and
  the assertion on its length stops the process: neither the null pointer nor a
  signature comes back.
\<close>

theorem sign_hash_aborts_on_larger_group:
  "example_sign_384 [1, 2, 3] 8
     = Some (0x10000000000000000000000000000000000000000000000000000000000000008, 66060)
   \<and> (0::int) < 0x10000000000000000000000000000000000000000000000000000000000000008
   \<and> 0x10000000000000000000000000000000000000000000000000000000000000008 < secp384r1_order
   \<and> (0::int) < 66060 \<and> 66060 < secp384r1_order
   \<and> sign_hash example_sign_384 (\<lambda>k. secp384r1_order) 8 [1, 2, 3] = Inl AssertionFailed"
  by (simp add: sign_hash_def example_sign_384_def int_of_be_bytes_def BN_is_odd_def BN_sub_def
      secp384r1_order_def BN_num_bytes_def BN_bn2bin_def be_bytes_of_nat.simps Let_def)

text \<open>
  C3, as amended. For every digest \<open>h\<close> and every private key \<open>k\<close> whose group has an
  odd order of at most \<open>2 ^ 256\<close>, as the order of secp256k1 is, and a signing
  primitive that keeps its contract (the numbers it returns lie strictly between 0 and
  that order), \<^verbatim>\<open>sign_hash\<close> either returns the null pointer, exactly when the
  primitive fails, or returns a signature of two 32-byte numbers whose \<open>s\<close> has the
  low bit of its last byte clear; its \<open>r\<close> is the raw \<open>r\<close>, and its \<open>s\<close> is the order
  minus the raw \<open>s\<close> when the raw \<open>s\<close> is odd, and the raw \<open>s\<close> otherwise.
\<close>

theorem sign_hash_canonical:
  assumes contract: "\<And>sr ss. ECDSA_do_sign h k = Some (sr, ss) \<Longrightarrow>
      0 < sr \<and> sr < group_order k \<and> 0 < ss \<and> ss < group_order k"
    and odd_order: "odd (group_order k)"
    and order_256: "group_order k \<le> 2 ^ 256"
  shows "(ECDSA_do_sign h k = None \<and> sign_hash ECDSA_do_sign group_order k h = Inr None) \<or>
     (\<exists>sr ss sg. ECDSA_do_sign h k = Some (sr, ss) \<and>
        sign_hash ECDSA_do_sign group_order k h = Inr (Some sg) \<and>
        wf_signature sg \<and> s_even sg \<and>
        int_of_be_bytes (r sg) = sr \<and>
        int_of_be_bytes (s sg) = (if odd ss then group_order k - ss else ss))"
proof (cases "ECDSA_do_sign h k")
  case None
  then show ?thesis
    by (simp add: sign_hash_def)
next
  case (Some p)
  obtain sr ss where p: "p = (sr, ss)"
    by (cases p)
  note c = contract [OF Some [unfolded p]]
  define ss' where "ss' = (if odd ss then group_order k - ss else ss)"
  have ss'_range: "0 \<le> ss'" "ss' < 2 ^ 256"
    using c order_256 by (auto simp: ss'_def)
  have ss'_even: "even ss'"
    using odd_order by (simp add: ss'_def)
  have "\<bar>sr\<bar> < 2 ^ 256" and "\<bar>ss'\<bar> < 2 ^ 256"
    using c order_256 ss'_range by linarith+
  then have len_r: "BN_num_bytes sr \<le> 32" and len_s: "BN_num_bytes ss' \<le> 32"
    by (simp_all add: BN_num_bytes_le_32)
  define sg where "sg = \<lparr>r = memcpy (replicate 32 0) (32 - BN_num_bytes sr) (BN_bn2bin sr),
                          s = memcpy (replicate 32 0) (32 - BN_num_bytes ss') (BN_bn2bin ss')\<rparr>"
  have "sign_hash ECDSA_do_sign group_order k h = Inr (Some sg)"
    using Some p ss'_even len_r len_s
    by (simp add: sign_hash_def BN_is_odd_def BN_sub_def Let_def sg_def ss'_def split: if_splits)
  moreover have "wf_signature sg"
    using BN_pack(1) [OF len_r] BN_pack(1) [OF len_s] by (simp add: wf_signature_def sg_def)
  moreover have "s_even sg"
    using BN_pack(3) [OF len_s] ss'_even by (simp add: s_even_def word_and_1_eq_0 sg_def)
  moreover have "int_of_be_bytes (r sg) = sr"
    using BN_pack(2) [OF len_r] c by (simp add: sg_def)
  moreover have "int_of_be_bytes (s sg) = ss'"
    using BN_pack(2) [OF len_s] ss'_range by (simp add: sg_def)
  ultimately show ?thesis
    using Some p by (auto simp: ss'_def)
qed

theorem sign_hash_canonical_witness:
  "example_sign [1, 2, 3] 8 = Some (8, 66059)
   \<and> 0 < (8::int) \<and> 8 < secp256k1_order \<and> 0 < (66059::int) \<and> 66059 < secp256k1_order
   \<and> odd secp256k1_order \<and> secp256k1_order \<le> 2 ^ 256
   \<and> sign_hash example_sign (\<lambda>k. secp256k1_order) 8 [1, 2, 3] = Inr (Some sig_signed_example)
   \<and> s_even sig_signed_example
   \<and> int_of_be_bytes (s sig_signed_example) = secp256k1_order - 66059"
  using sign_hash_canonical
    [where ECDSA_do_sign = example_sign and h = "[1, 2, 3]" and k = 8
       and group_order = "\<lambda>k. secp256k1_order"]
  by (simp add: sign_hash_def example_sign_def int_of_be_bytes_def BN_is_odd_def BN_sub_def
      secp256k1_order_def BN_num_bytes_def BN_bn2bin_def be_bytes_of_nat.simps memcpy_def
      Let_def sig_signed_example_def s_even_def replicate_31_zero)

section \<open>The digest of one input\<close>

text \<open>
  An input whose empty script has a non-null pointer comes back with the null pointer:
  the transaction is not the one before the call.
\<close>

theorem sha256_tx_one_input_nulls_pointer:
  "inputs_zeroed (input tx_example2)
   \<and> fst (sha256_tx_one_input transparent_hash tx_example2 1 (Some [0xA9, 0x14, 0x87]) 3)
       = \<lparr>input = [\<lparr>script_length = 0, script = None\<rparr>, \<lparr>script_length = 0, script = None\<rparr>]\<rparr>
   \<and> fst (sha256_tx_one_input transparent_hash tx_example2 1 (Some [0xA9, 0x14, 0x87]) 3)
       \<noteq> tx_example2"
  by (simp add: tx_example2_def transparent_hash_def sha256_tx_one_input_def Let_def)

text \<open>
  C4, as amended. After a call of \<^verbatim>\<open>sha256_tx_one_input\<close> on a transaction whose
  inputs all have an empty script (script length 0), every input has an empty script
  again, on every exit, the failed assertion on the input number included. Nothing in
  the transaction has changed but the script pointer of the signed input, which is
  null after the call; when that pointer was null before the call, as in a zeroed
  input, the transaction is identical to the one before the call.
\<close>

theorem sha256_tx_one_input_restores:
  assumes "inputs_zeroed (input tx)"
  shows "inputs_zeroed (input (fst (sha256_tx_one_input H tx input_num scr script_len)))
    \<and> fst (sha256_tx_one_input H tx input_num scr script_len)
        = (if input_num < length (input tx)
           then tx\<lparr>input := (input tx)[input_num := (input tx ! input_num)\<lparr>script := None\<rparr>]\<rparr>
           else tx)
    \<and> ((input_num < length (input tx) \<longrightarrow> script (input tx ! input_num) = None)
        \<longrightarrow> fst (sha256_tx_one_input H tx input_num scr script_len) = tx)"
proof (cases "input_num < length (input tx)")
  case True
  have z: "script_length (input tx ! input_num) = 0"
    using assms True by (simp add: inputs_zeroed_nth)
  have same: "script (input tx ! input_num) = None \<Longrightarrow>
      tx\<lparr>input := (input tx)[input_num := (input tx ! input_num)\<lparr>script := None\<rparr>]\<rparr> = tx"
  proof -
    assume "script (input tx ! input_num) = None"
    then have "(input tx ! input_num)\<lparr>script := None\<rparr> = input tx ! input_num"
      by (cases "input tx ! input_num") simp
    then show ?thesis
      by simp
  qed
  show ?thesis
    using True assms z same
    by (simp add: sha256_tx_one_input_eq inputs_zeroed_update)
next
  case False
  then show ?thesis
    using assms by (simp add: sha256_tx_one_input_def)
qed

theorem sha256_tx_one_input_restores_witness:
  "inputs_zeroed (input tx_example2)
   \<and> sha256_tx_one_input transparent_hash tx_example2 0 (Some [0xA9, 0x14, 0x87]) 3
       = (tx_example2, Inr [3, 0xA9, 0x14, 0x87, 0, 1, 0, 0, 0])
   \<and> fst (sha256_tx_one_input transparent_hash tx_example2 1 (Some [0xA9, 0x14, 0x87]) 3)
       = \<lparr>input = [\<lparr>script_length = 0, script = None\<rparr>, \<lparr>script_length = 0, script = None\<rparr>]\<rparr>
   \<and> sha256_tx_one_input transparent_hash tx_example2 2 (Some [0xA9, 0x14, 0x87]) 3
       = (tx_example2, Inl AssertionFailed)"
  using sha256_tx_one_input_restores [of tx_example2 transparent_hash 0 "Some [0xA9, 0x14, 0x87]" 3]
  by (simp add: tx_example2_def transparent_hash_def sha256_tx_one_input_def Let_def)

text \<open>
  C9. For a transaction whose inputs all have an empty script (the scenario: one such
  input), an input number in range and any script bytes, two calls of
  \<^verbatim>\<open>sha256_tx_one_input\<close> in succession with the same arguments, the second on the
  transaction as the first leaves it, both return a digest, the same one, and every
  input has an empty script before the first call, between the calls and after the
  second.
\<close>

theorem sha256_tx_one_input_twice:
  assumes "input_num < length (input tx)" and "inputs_zeroed (input tx)"
  shows "\<exists>tx1 tx2 d.
      sha256_tx_one_input H tx input_num scr script_len = (tx1, Inr d)
    \<and> sha256_tx_one_input H tx1 input_num scr script_len = (tx2, Inr d)
    \<and> inputs_zeroed (input tx1) \<and> inputs_zeroed (input tx2)"
proof -
  define tx1 where
    "tx1 = tx\<lparr>input := (input tx)[input_num := (input tx ! input_num)\<lparr>script := None\<rparr>]\<rparr>"
  have z: "script_length (input tx ! input_num) = 0"
    using assms by (simp add: inputs_zeroed_nth)
  have len1: "input_num < length (input tx1)"
    using assms(1) by (simp add: tx1_def)
  have z1: "inputs_zeroed (input tx1)"
    using assms(2) z by (simp add: tx1_def inputs_zeroed_update)
  have installed: "tx1\<lparr>input := (input tx1)[input_num :=
        (input tx1 ! input_num)\<lparr>script_length := script_len, script := scr\<rparr>]\<rparr>
      = tx\<lparr>input := (input tx)[input_num :=
        (input tx ! input_num)\<lparr>script_length := script_len, script := scr\<rparr>]\<rparr>"
    using assms(1) by (simp add: tx1_def)
  have left: "tx1\<lparr>input := (input tx1)[input_num := (input tx1 ! input_num)\<lparr>script := None\<rparr>]\<rparr>
      = tx1"
    using assms(1) by (simp add: tx1_def)
  show ?thesis
    using z1
    by (simp add: sha256_tx_one_input_eq [OF assms] sha256_tx_one_input_eq [OF len1 z1]
        installed left flip: tx1_def)
qed

theorem sha256_tx_one_input_twice_witness:
  "0 < length (input tx_example) \<and> inputs_zeroed (input tx_example)
   \<and> (case sha256_tx_one_input transparent_hash tx_example 0 (Some [0xA9, 0x14, 0x87]) 3 of
        (tx1, h1) \<Rightarrow>
          (h1, sha256_tx_one_input transparent_hash tx1 0 (Some [0xA9, 0x14, 0x87]) 3))
       = (Inr digest_example, tx_example, Inr digest_example)"
  using sha256_tx_one_input_twice [of 0 tx_example transparent_hash "Some [0xA9, 0x14, 0x87]" 3]
  by (simp add: tx_example_def transparent_hash_def sha256_tx_one_input_def Let_def
      digest_example_def)

section \<open>Joint authorization\<close>

text \<open>
  C6. For every transaction, input number, output, pair of keys and pair of signatures
  that satisfy the preconditions (the input number is in range, every input has an
  empty script, the output's script passes \<^verbatim>\<open>is_p2sh\<close>, both signatures are
  canonical), \<^verbatim>\<open>check_2of2_sig\<close> computes one digest and returns true if and only if
  \<^verbatim>\<open>check_signed_hash\<close> returns true on that digest for the first signature and key
  and for the second signature and key: leaving the second check out when the first
  fails does not change the result.
\<close>

theorem check_2of2_sig_both:
  assumes "input_num < length (input tx)" and "inputs_zeroed (input tx)"
    and "is_p2sh (bitcoin_tx_output.script output) (bitcoin_tx_output.script_length output)"
    and "s_even sig1" and "s_even sig2"
  shows "\<exists>tx' hash b1 b2.
      sha256_tx_one_input H tx input_num (bitcoin_tx_output.script output)
        (bitcoin_tx_output.script_length output) = (tx', Inr hash)
    \<and> check_signed_hash E hash sig1 key1 = Inr b1
    \<and> check_signed_hash E hash sig2 key2 = Inr b2
    \<and> check_2of2_sig H is_p2sh E tx input_num output key1 key2 sig1 sig2
        = (tx', Inr (b1 \<and> b2))"
proof -
  have total: "\<exists>b. check_signed_hash E hash sg pk = Inr b" if "s_even sg" for hash sg pk
    by (simp add: check_signed_hash_eq [OF that])
  obtain tx' hash where d: "sha256_tx_one_input H tx input_num (bitcoin_tx_output.script output)
        (bitcoin_tx_output.script_length output) = (tx', Inr hash)"
    by (simp add: sha256_tx_one_input_eq [OF assms(1,2)])
  obtain b1 where b1: "check_signed_hash E hash sig1 key1 = Inr b1"
    using total [OF assms(4)] by blast
  obtain b2 where b2: "check_signed_hash E hash sig2 key2 = Inr b2"
    using total [OF assms(5)] by blast
  have "check_2of2_sig H is_p2sh E tx input_num output key1 key2 sig1 sig2
        = (tx', Inr (b1 \<and> b2))"
    using assms(1,3) d b1 b2 by (cases b1) (simp_all add: check_2of2_sig_def)
  then show ?thesis
    using d b1 b2 by blast
qed

theorem check_2of2_sig_both_witness:
  "0 < length (input tx_example) \<and> inputs_zeroed (input tx_example)
   \<and> is_p2sh_example (bitcoin_tx_output.script output_example)
        (bitcoin_tx_output.script_length output_example)
   \<and> s_even sig_a \<and> s_even sig_b
   \<and> sha256_tx_one_input transparent_hash tx_example 0 (bitcoin_tx_output.script output_example)
        (bitcoin_tx_output.script_length output_example) = (tx_example, Inr digest_example)
   \<and> check_signed_hash example_ecdsa digest_example sig_a key_a = Inr True
   \<and> check_signed_hash example_ecdsa digest_example sig_b key_b = Inr True
   \<and> check_2of2_sig transparent_hash is_p2sh_example example_ecdsa tx_example 0 output_example
        key_a key_b sig_a sig_b = (tx_example, Inr True)
   \<and> check_signed_hash example_ecdsa digest_example sig_b key_a = Inr False
   \<and> check_2of2_sig transparent_hash is_p2sh_example example_ecdsa tx_example 0 output_example
        key_a key_b sig_b sig_a = (tx_example, Inr False)"
  using check_2of2_sig_both
    [of 0 tx_example is_p2sh_example output_example sig_a sig_b transparent_hash example_ecdsa
      key_a key_b]
  by (simp add: tx_example_def transparent_hash_def sha256_tx_one_input_def Let_def
      digest_example_def output_example_def is_p2sh_example_def s_even_def sig_a_def sig_b_def
      key_a_def key_b_def example_ecdsa_def check_signed_hash_def check_2of2_sig_def
      BN_bin2bn_def int_of_be_bytes_def secp256k1_order_def)

section \<open>Further properties\<close>

text \<open>
  Whatever the signing primitive returns and whatever the order of the group,
  \<^verbatim>\<open>sign_hash\<close> never returns a signature with an odd \<open>s\<close>: a signature it returns has
  two 32-byte numbers, the magnitude of the raw \<open>r\<close> and the magnitude of the raw \<open>s\<close>
  or of the order minus the raw \<open>s\<close>, and the low bit of the last byte of its \<open>s\<close> is
  clear. The assertions stop every other case.
\<close>

theorem sign_hash_returns_even_only:
  assumes "sign_hash ECDSA_do_sign group_order k h = Inr (Some sg)"
  shows "wf_signature sg \<and> s_even sg \<and>
    (\<exists>sr ss. ECDSA_do_sign h k = Some (sr, ss) \<and> int_of_be_bytes (r sg) = \<bar>sr\<bar> \<and>
       int_of_be_bytes (s sg) = \<bar>if odd ss then group_order k - ss else ss\<bar>)"
proof (cases "ECDSA_do_sign h k")
  case None
  then show ?thesis
    using assms by (simp add: sign_hash_def)
next
  case (Some p)
  obtain sr ss where p: "p = (sr, ss)"
    by (cases p)
  define ss' where "ss' = (if odd ss then group_order k - ss else ss)"
  have ok: "even ss'" "BN_num_bytes sr \<le> 32" "BN_num_bytes ss' \<le> 32"
    and sg: "sg = \<lparr>r = memcpy (replicate 32 0) (32 - BN_num_bytes sr) (BN_bn2bin sr),
                    s = memcpy (replicate 32 0) (32 - BN_num_bytes ss') (BN_bn2bin ss')\<rparr>"
    using assms Some p
    by (auto simp: sign_hash_def BN_is_odd_def BN_sub_def Let_def ss'_def split: if_splits)
  have "wf_signature sg"
    using BN_pack(1) [OF ok(2)] BN_pack(1) [OF ok(3)] by (simp add: wf_signature_def sg)
  moreover have "s_even sg"
    using BN_pack(3) [OF ok(3)] ok(1) by (simp add: s_even_def word_and_1_eq_0 sg)
  moreover have "int_of_be_bytes (r sg) = \<bar>sr\<bar>"
    using BN_pack(2) [OF ok(2)] by (simp add: sg)
  moreover have "int_of_be_bytes (s sg) = \<bar>ss'\<bar>"
    using BN_pack(2) [OF ok(3)] by (simp add: sg)
  ultimately show ?thesis
    using Some p by (simp add: ss'_def)
qed

theorem sign_hash_returns_even_only_witness:
  "sign_hash example_sign (\<lambda>k. secp256k1_order) 8 [1, 2, 3] = Inr (Some sig_signed_example)
   \<and> wf_signature sig_signed_example \<and> s_even sig_signed_example
   \<and> int_of_be_bytes (r sig_signed_example) = 8"
  using sign_hash_returns_even_only
    [where ECDSA_do_sign = example_sign and h = "[1, 2, 3]" and k = 8
       and group_order = "\<lambda>k. secp256k1_order" and sg = sig_signed_example]
  by (simp add: sign_hash_def example_sign_def int_of_be_bytes_def BN_is_odd_def BN_sub_def
      secp256k1_order_def BN_num_bytes_def BN_bn2bin_def be_bytes_of_nat.simps memcpy_def
      Let_def sig_signed_example_def s_even_def wf_signature_def replicate_31_zero)

text \<open>
  The scenario of the all-zero signature: on either host its wire record has eight
  zero words, and decoding that record gives the all-zero signature back.
\<close>

theorem zero_signature_scenario:
  "signature_to_proto e sig_zero
     = Inr \<lparr>r1 = 0, r2 = 0, r3 = 0, r4 = 0, s1 = 0, s2 = 0, s3 = 0, s4 = 0\<rparr>
   \<and> proto_to_signature e \<lparr>r1 = 0, r2 = 0, r3 = 0, r4 = 0, s1 = 0, s2 = 0, s3 = 0, s4 = 0\<rparr>
        sig_example = (sig_zero, True)"
  by (cases e)
    (simp_all add: sig_zero_def sig_example_def signature_to_proto_def proto_to_signature_def
      s_even_def memcpy_def bytes_at_def u64_of_bytes_def bytes_of_u64_def u64_of_be_bytes_def
      be_bytes_of_u64_def shift_in_def byte_at_def)

end
